theory Spec2Isabelle
  imports Main "HOL-Library.List_Lexorder" "HOL-Library.Multiset" "HOL-Library.Sublist"
begin

section \<open>The dead code detector \<^verbatim>\<open>scripts/deadcode.py\<close>\<close>

text \<open>
  The script scans the Go files under the current directory, extracts the declared
  function names with a regular expression, counts the word tokens that equal one of
  the names, and prints the names that occur no more often than they are declared.

  Conventions of the embedding:
  \<^item> a Python \<^verbatim>\<open>str\<close> is the list of its code points, as integers, so that its length,
    its slices and its order are Python's; a literal of the script is written
    \<open>lit ''...''\<close>;
  \<^item> the character classes \<^verbatim>\<open>\s\<close>, \<^verbatim>\<open>\w\<close> and \<^verbatim>\<open>isupper\<close> are those of the interpreter's
    Unicode database, which is not a part of the script: on ASCII they are written
    out, beyond ASCII they are read from a parameter of every function that uses them;
  \<^item> a path is the list of its components, as \<^verbatim>\<open>pathlib\<close> compares and tests paths by
    \<^verbatim>\<open>parts\<close>;
  \<^item> the standard streams are lists: one element for each call of \<^verbatim>\<open>print\<close>, without the
    line terminator that \<^verbatim>\<open>print\<close> adds;
  \<^item> an uncaught exception is the \<^term>\<open>Inl\<close> branch of a sum.
\<close>

subsection \<open>Text\<close>

type_synonym str = "int list"

definition cp :: "char \<Rightarrow> int" where
  \<comment> \<open>the code point of an ASCII character.\<close>
  "cp c = of_char c"

definition lit :: "string \<Rightarrow> str" where
  "lit s = map cp s"

text \<open>
  The database of the interpreter, beyond ASCII: which code points from 128 on are
  alphanumeric (\<^verbatim>\<open>str.isalnum\<close>), white space (\<^verbatim>\<open>str.isspace\<close>) and upper case
  (\<^verbatim>\<open>str.isupper\<close>). The regular expressions of the script are compiled from \<^verbatim>\<open>str\<close>
  patterns without the ASCII flag, so \<^verbatim>\<open>\w\<close> is an alphanumeric character or the
  underscore and \<^verbatim>\<open>\s\<close> is a white space character, both by the database.
\<close>

record ucd =
  ucd_alnum :: "int \<Rightarrow> bool"
  ucd_space :: "int \<Rightarrow> bool"
  ucd_upper :: "int \<Rightarrow> bool"

definition is_space :: "ucd \<Rightarrow> int \<Rightarrow> bool" where
  \<comment> \<open>\<^verbatim>\<open>\s\<close>, and what \<^verbatim>\<open>str.strip\<close> removes; in ASCII: TAB..CR, FS..US and the blank.\<close>
  "is_space u c =
     (if c < 128 then (9 \<le> c \<and> c \<le> 13) \<or> (28 \<le> c \<and> c \<le> 32) else ucd_space u c)"

definition is_word :: "ucd \<Rightarrow> int \<Rightarrow> bool" where
  \<comment> \<open>\<^verbatim>\<open>\w\<close>; in ASCII: digits, letters and the underscore.\<close>
  "is_word u c =
     (if c < 128
      then (48 \<le> c \<and> c \<le> 57) \<or> (65 \<le> c \<and> c \<le> 90) \<or> c = 95 \<or> (97 \<le> c \<and> c \<le> 122)
      else ucd_alnum u c)"

definition isupper :: "ucd \<Rightarrow> int \<Rightarrow> bool" where
  \<comment> \<open>\<^verbatim>\<open>str.isupper\<close> of one character; in ASCII: A..Z.\<close>
  "isupper u c = (if c < 128 then 65 \<le> c \<and> c \<le> 90 else ucd_upper u c)"

definition startswith :: "str \<Rightarrow> str \<Rightarrow> bool" where
  "startswith s p = (take (length p) s = p)"

definition strip :: "ucd \<Rightarrow> str \<Rightarrow> str" where
  "strip u s = rev (dropWhile (is_space u) (rev (dropWhile (is_space u) s)))"

fun str_nat :: "nat \<Rightarrow> str" where
  "str_nat n = (if n < 10 then [48 + int n]
                else str_nat (n div 10) @ [48 + int (n mod 10)])"

declare str_nat.simps [simp del]

definition str_int :: "int \<Rightarrow> str" where
  "str_int i = (if i < 0 then cp CHR ''-'' # str_nat (nat (- i)) else str_nat (nat i))"

definition ljust :: "nat \<Rightarrow> str \<Rightarrow> str" where
  \<comment> \<open>the format specification \<^verbatim>\<open>:<6\<close>.\<close>
  "ljust w s = s @ replicate (w - length s) (cp CHR '' '')"

definition newline :: "int" where
  "newline = 10"

definition le_sign :: "str" where
  \<comment> \<open>U+2264.\<close>
  "le_sign = [8804]"

definition box_line :: "str" where
  \<comment> \<open>U+2500.\<close>
  "box_line = [9472]"

definition check_mark :: "str" where
  \<comment> \<open>U+2713.\<close>
  "check_mark = [10003]"

definition arrow :: "str" where
  \<comment> \<open>U+2192.\<close>
  "arrow = [8594]"

subsection \<open>The two regular expressions\<close>

text \<open>
  \<^verbatim>\<open>FUNC_PATTERN = ^\s*func\s+(?:\([^)]+\)\s+)?(\w+)\<close>, applied with \<^verbatim>\<open>match\<close>. In the
  database no character is both white space and a word character (white space lies in
  the general categories Z and Cc, word characters in L and N and the underscore), and
  the letter f and the two parentheses are in neither class. So no character is in two
  of the classes that follow one another in the pattern, every greedy repetition takes
  the whole run, and backtracking finds nothing more: after the keyword and its white
  space, a line that goes on with a parenthesis can only match through the receiver
  group, and any other line only without it.
\<close>

definition word_at :: "ucd \<Rightarrow> str \<Rightarrow> str option" where
  \<comment> \<open>\<^verbatim>\<open>(\w+)\<close>\<close>
  "word_at u s = (let w = takeWhile (is_word u) s in if w = [] then None else Some w)"

definition after_space :: "ucd \<Rightarrow> str \<Rightarrow> str option" where
  \<comment> \<open>\<^verbatim>\<open>\s+\<close>: the rest of the text, when at least one character was taken.\<close>
  "after_space u s = (if takeWhile (is_space u) s = [] then None else Some (dropWhile (is_space u) s))"

definition receiver_and_name :: "ucd \<Rightarrow> str \<Rightarrow> str option" where
  \<comment> \<open>\<^verbatim>\<open>[^)]+\)\s+(\w+)\<close>, on the text after the opening parenthesis.\<close>
  "receiver_and_name u r =
     (let inner = takeWhile (\<lambda>x. x \<noteq> cp CHR '')'') r;
          r1 = dropWhile (\<lambda>x. x \<noteq> cp CHR '')'') r
      in if inner = [] then None
         else case r1 of
           [] \<Rightarrow> None
         | _ # r2 \<Rightarrow> (case after_space u r2 of None \<Rightarrow> None | Some r3 \<Rightarrow> word_at u r3))"

definition declared_name :: "ucd \<Rightarrow> str \<Rightarrow> str option" where
  \<comment> \<open>\<^verbatim>\<open>(?:\([^)]+\)\s+)?(\w+)\<close>\<close>
  "declared_name u s =
     (case s of
        [] \<Rightarrow> None
      | c # r \<Rightarrow> if c = cp CHR ''('' then receiver_and_name u r else word_at u s)"

definition FUNC_PATTERN :: "ucd \<Rightarrow> str \<Rightarrow> str option" where
  "FUNC_PATTERN u line =
     (let s1 = dropWhile (is_space u) line in
      if \<not> startswith s1 (lit ''func'') then None
      else case after_space u (drop 4 s1) of
        None \<Rightarrow> None
      | Some s2 \<Rightarrow> declared_name u s2)"

text \<open>
  \<^verbatim>\<open>WORD_BOUNDARY = \b(\w+)\b\<close>, applied with \<^verbatim>\<open>finditer\<close>: the matches are the maximal
  runs of word characters, from left to right. The first argument is the run being read.
\<close>

definition flush :: "str \<Rightarrow> str list" where
  "flush cur = (if cur = [] then [] else [cur])"

fun words_from :: "ucd \<Rightarrow> str \<Rightarrow> str \<Rightarrow> str list" where
  "words_from u cur [] = flush cur"
| "words_from u cur (c # cs) =
     (if is_word u c then words_from u (cur @ [c]) cs else flush cur @ words_from u [] cs)"

definition WORD_BOUNDARY :: "ucd \<Rightarrow> str \<Rightarrow> str list" where
  "WORD_BOUNDARY u line = words_from u [] line"

subsection \<open>Paths and files\<close>

type_synonym path = "str list"

fun join_parts :: "str list \<Rightarrow> str" where
  "join_parts [] = []"
| "join_parts [p] = p"
| "join_parts (p # q # ps) = p @ lit ''/'' @ join_parts (q # ps)"

definition path_str :: "path \<Rightarrow> str" where
  \<comment> \<open>\<^verbatim>\<open>str(filename)\<close>\<close>
  "path_str p = (if p = [] then lit ''.'' else join_parts p)"

text \<open>
  What a file gives when it is read. \<^verbatim>\<open>open\<close> may fail; an opened text file is decoded
  while it is iterated, so it hands out some lines and then either ends or raises. The
  string is the text of the exception. The file system maps a path relative to the
  current directory to the file there.
\<close>

datatype file_state = OpenFails str | Opened "str list" "str option"

type_synonym file_system = "path \<Rightarrow> file_state"

definition warning :: "path \<Rightarrow> str \<Rightarrow> str" where
  "warning filename e = lit ''[WARN] Could not read '' @ path_str filename @ lit '': '' @ e"

definition log :: "str \<Rightarrow> bool \<Rightarrow> str list" where
  "log msg verbose = (if verbose then [lit ''[INFO] '' @ msg] else [])"

text \<open>
  \<^verbatim>\<open>read_file\<close> is a generator; its consumers read it to the end, so the model returns
  the pairs it yields and what it has written to the error stream by then.
\<close>

definition read_file :: "file_system \<Rightarrow> path \<Rightarrow> (nat \<times> str) list \<times> str list" where
  "read_file fs filename =
     (case fs filename of
        OpenFails e \<Rightarrow> ([], [warning filename e])
      | Opened source None \<Rightarrow> (enumerate 1 source, [])
      | Opened source (Some e) \<Rightarrow> (enumerate 1 source, [warning filename e]))"

text \<open>
  \<^verbatim>\<open>find_files\<close>. The glob of the standard library is a parameter: \<open>found\<close> lists, in
  the order of the traversal, the paths that \<^verbatim>\<open>rglob\<close> yields, each relative to the root;
  the path object of an entry \<open>rel\<close> has the parts \<open>root @ rel\<close>, and \<^verbatim>\<open>relative_to\<close>
  gives \<open>rel\<close> back.
\<close>

definition excluded_dirs :: "str list" where
  "excluded_dirs = [lit ''vendor'', lit ''.git'', lit ''testdata'', lit ''mocks'']"

definition skipped :: "path \<Rightarrow> path \<Rightarrow> bool" where
  \<comment> \<open>\<^verbatim>\<open>any(excluded in path.parts for excluded in excluded_dirs)\<close>\<close>
  "skipped root rel = (\<exists>excluded \<in> set excluded_dirs. excluded \<in> set (root @ rel))"

definition find_files :: "path \<Rightarrow> path list \<Rightarrow> path list" where
  "find_files root found = sort (filter (\<lambda>rel. \<not> skipped root rel) found)"

subsection \<open>Definitions and references\<close>

text \<open>
  \<^verbatim>\<open>functions\<close> is a dictionary of lists that is iterated, counted and sorted: an
  association list in the order of insertion, a key entered by its first definition.
\<close>

type_synonym site = "str \<times> nat"

type_synonym function_table = "(str \<times> site list) list"

fun append_site :: "str \<Rightarrow> site \<Rightarrow> function_table \<Rightarrow> function_table" where
  \<comment> \<open>\<^verbatim>\<open>functions[func_name].append(...)\<close>\<close>
  "append_site func_name s [] = [(func_name, [s])]"
| "append_site func_name s ((k, v) # rest) =
     (if k = func_name then (k, v @ [s]) # rest else (k, v) # append_site func_name s rest)"

definition definition_line :: "ucd \<Rightarrow> path \<Rightarrow> nat \<times> str \<Rightarrow> function_table \<Rightarrow> function_table" where
  "definition_line u filename nl functions =
     (case FUNC_PATTERN u (snd nl) of
        None \<Rightarrow> functions
      | Some func_name \<Rightarrow> append_site func_name (path_str filename, fst nl) functions)"

definition definition_file ::
  "ucd \<Rightarrow> file_system \<Rightarrow> path \<Rightarrow> function_table \<times> str list \<Rightarrow> function_table \<times> str list" where
  "definition_file u fs filename st =
     (let (lines, warn) = read_file fs filename
      in (fold (definition_line u filename) lines (fst st), snd st @ warn))"

definition find_function_definitions ::
  "ucd \<Rightarrow> file_system \<Rightarrow> path list \<Rightarrow> bool \<Rightarrow> function_table \<times> str list" where
  "find_function_definitions u fs files verbose =
     (let (functions, err) = fold (definition_file u fs) files ([], [])
      in (functions,
          err @ log (lit ''Found '' @ str_nat (length functions) @ lit '' unique function/method names'')
                  verbose))"

type_synonym counters = "str \<rightharpoonup> int"

type_synonym references = "str \<rightharpoonup> (str \<times> str) list"

definition counter_of :: "counters \<Rightarrow> str \<Rightarrow> int" where
  \<comment> \<open>\<^verbatim>\<open>counters.get(func_name, 0)\<close>, and the default of the \<^verbatim>\<open>defaultdict(int)\<close>.\<close>
  "counter_of counters w = (case counters w of None \<Rightarrow> 0 | Some c \<Rightarrow> c)"

definition references_of :: "references \<Rightarrow> str \<Rightarrow> (str \<times> str) list" where
  "references_of references w = (case references w of None \<Rightarrow> [] | Some l \<Rightarrow> l)"

definition reference_word ::
  "ucd \<Rightarrow> str set \<Rightarrow> path \<Rightarrow> nat \<times> str \<Rightarrow> str \<Rightarrow> counters \<times> references
    \<Rightarrow> counters \<times> references" where
  "reference_word u func_set filename nl word st =
     (if word \<in> func_set then
        ((fst st)(word \<mapsto> counter_of (fst st) word + 1),
         (snd st)(word \<mapsto> references_of (snd st) word
            @ [(path_str filename @ lit '':'' @ str_nat (fst nl), take 80 (strip u (snd nl)))]))
      else st)"

definition reference_line ::
  "ucd \<Rightarrow> str set \<Rightarrow> path \<Rightarrow> nat \<times> str \<Rightarrow> counters \<times> references \<Rightarrow> counters \<times> references" where
  "reference_line u func_set filename nl st =
     fold (reference_word u func_set filename nl) (WORD_BOUNDARY u (snd nl)) st"

definition reference_file ::
  "ucd \<Rightarrow> file_system \<Rightarrow> str set \<Rightarrow> bool \<Rightarrow> nat \<Rightarrow> nat \<times> path
    \<Rightarrow> (counters \<times> references) \<times> str list \<Rightarrow> (counters \<times> references) \<times> str list" where
  "reference_file u fs func_set verbose total_files ifile st =
     (let (i, filename) = ifile;
          progress = (if verbose \<and> (i + 1) mod 50 = 0
            then log (lit ''Scanning file '' @ str_nat (i + 1) @ lit ''/'' @ str_nat total_files
                       @ lit '': '' @ path_str filename) verbose
            else []);
          (lines, warn) = read_file fs filename
      in (fold (reference_line u func_set filename) lines (fst st), snd st @ progress @ warn))"

definition count_references ::
  "ucd \<Rightarrow> file_system \<Rightarrow> path list \<Rightarrow> str list \<Rightarrow> bool
    \<Rightarrow> (counters \<times> references) \<times> str list" where
  "count_references u fs files function_names verbose =
     (let func_set = set function_names;
          total_files = length files;
          (tables, err) = fold (reference_file u fs func_set verbose total_files)
                            (enumerate 0 files) ((Map.empty, Map.empty), [])
      in (tables, err @ log (lit ''Scanned '' @ str_nat total_files @ lit '' files for references'')
                          verbose))"

subsection \<open>The analysis\<close>

record args =
  verbose :: bool
  max_refs :: int
  include_exported :: bool
  include_tests :: bool
  summary :: bool
  show_refs :: bool
  all_low_usage :: bool

datatype error = IndexError

type_synonym dead_candidate = "str \<times> int \<times> site list"

type_synonym low_usage_entry = "str \<times> int \<times> int \<times> site list"

definition false_positive_names :: "str list" where
  "false_positive_names = [lit ''init'', lit ''main'', lit ''String'', lit ''Error'']"

text \<open>
  One round of the loop over the sorted items. \<^verbatim>\<open>func_name[0]\<close> raises on the empty
  name; the test for the prefix comes before it, and the empty name passes that test.
\<close>

definition analyze_item ::
  "ucd \<Rightarrow> args \<Rightarrow> counters \<Rightarrow> str \<times> site list
    \<Rightarrow> dead_candidate list \<times> low_usage_entry list
    \<Rightarrow> error + (dead_candidate list \<times> low_usage_entry list)" where
  "analyze_item u a counters item st =
     (let (func_name, definitions) = item; (dead_candidates, low_usage) = st in
      if \<not> include_tests a \<and> startswith func_name (lit ''Test'') then Inr st
      else case func_name of
        [] \<Rightarrow> Inl IndexError
      | c # _ \<Rightarrow>
          (let is_exported = isupper u c in
           if \<not> include_exported a \<and> is_exported then Inr st
           else if func_name \<in> set false_positive_names then Inr st
           else
             (let ref_count = counter_of counters func_name;
                  def_count = int (length definitions)
              in if ref_count \<le> def_count
                 then Inr (dead_candidates @ [(func_name, ref_count, definitions)], low_usage)
                 else if ref_count \<le> max_refs a + def_count
                 then Inr (dead_candidates,
                           low_usage @ [(func_name, ref_count, def_count, definitions)])
                 else Inr st)))"

fun analyze ::
  "ucd \<Rightarrow> args \<Rightarrow> counters \<Rightarrow> (str \<times> site list) list
    \<Rightarrow> dead_candidate list \<times> low_usage_entry list
    \<Rightarrow> error + (dead_candidate list \<times> low_usage_entry list)" where
  "analyze u a counters [] st = Inr st"
| "analyze u a counters (item # rest) st =
     (case analyze_item u a counters item st of
        Inl e \<Rightarrow> Inl e
      | Inr st' \<Rightarrow> analyze u a counters rest st')"

definition sorted_items :: "function_table \<Rightarrow> (str \<times> site list) list" where
  \<comment> \<open>\<^verbatim>\<open>sorted(functions.items())\<close>: the keys are distinct, so the names decide.\<close>
  "sorted_items functions = sort_key fst functions"

subsection \<open>The report\<close>

definition banner :: "args \<Rightarrow> nat \<Rightarrow> nat \<Rightarrow> nat \<Rightarrow> nat \<Rightarrow> str list" where
  "banner a n_files n_functions n_dead n_low =
     [newline # replicate 70 (cp CHR ''=''),
      lit ''DEAD CODE ANALYSIS REPORT'',
      replicate 70 (cp CHR ''=''),
      newline # lit ''Statistics:'',
      lit ''  - Go files scanned:      '' @ str_nat n_files,
      lit ''  - Functions found:       '' @ str_nat n_functions,
      lit ''  - Potentially dead:      '' @ str_nat n_dead,
      lit ''  - Low usage ('' @ le_sign @ str_int (max_refs a) @ lit '' refs): '' @ str_nat n_low]"

definition reference_listing :: "str \<Rightarrow> args \<Rightarrow> references \<Rightarrow> str \<Rightarrow> str list" where
  \<comment> \<open>\<^verbatim>\<open>if show_refs and func_name in references: ...\<close>, under either of its two titles.\<close>
  "reference_listing title a references func_name =
     (if show_refs a then
        (case references func_name of
           None \<Rightarrow> []
         | Some refs \<Rightarrow>
             (lit ''    '' @ title @ lit '' ('' @ str_nat (length refs) @ lit ''):'')
             # concat (map (\<lambda>(ref_loc, context).
                   [lit ''      '' @ ref_loc, lit ''        '' @ arrow @ lit '' '' @ context]) refs)
             @ [[]])
      else [])"

definition dead_lines :: "args \<Rightarrow> references \<Rightarrow> dead_candidate \<Rightarrow> str list" where
  "dead_lines a references entry =
     (let (func_name, ref_count, definitions) = entry in
      map (\<lambda>(filename, line_num).
             lit ''  '' @ filename @ lit '':'' @ ljust 6 (str_nat line_num) @ lit '' '' @ func_name)
          definitions
      @ reference_listing (lit ''References'') a references func_name)"

definition actual_refs :: "low_usage_entry \<Rightarrow> int" where
  \<comment> \<open>\<^verbatim>\<open>actual_refs = ref_count - def_count\<close>, the count the report shows for an entry.\<close>
  "actual_refs entry = (let (func_name, ref_count, def_count, definitions) = entry
                        in ref_count - def_count)"

definition low_usage_lines :: "args \<Rightarrow> references \<Rightarrow> low_usage_entry \<Rightarrow> str list" where
  "low_usage_lines a references entry =
     (let (func_name, ref_count, def_count, definitions) = entry in
      map (\<lambda>(filename, line_num).
             lit ''  '' @ filename @ lit '':'' @ ljust 6 (str_nat line_num) @ lit '' '' @ func_name
             @ lit '' ('' @ str_int (actual_refs entry) @ lit '' refs)'')
          definitions
      @ reference_listing (lit ''All references'') a references func_name)"

definition dead_section :: "args \<Rightarrow> references \<Rightarrow> dead_candidate list \<Rightarrow> str list" where
  "dead_section a references dead_candidates =
     (if dead_candidates \<noteq> [] then
        [newline # concat (replicate 70 box_line),
         lit ''POTENTIALLY DEAD CODE (only referenced at definition)'',
         concat (replicate 70 box_line)]
        @ concat (map (dead_lines a references) dead_candidates)
      else [newline # check_mark @ lit '' No dead code candidates found!''])"

definition low_usage_section :: "args \<Rightarrow> references \<Rightarrow> low_usage_entry list \<Rightarrow> str list" where
  "low_usage_section a references low_usage =
     (if low_usage \<noteq> [] \<and> \<not> summary a then
        [newline # concat (replicate 70 box_line),
         lit ''LOW USAGE FUNCTIONS ('' @ le_sign @ str_int (max_refs a)
           @ lit '' references beyond definition)'',
         concat (replicate 70 box_line)]
        @ (let display_count =
                 (if all_low_usage a then length low_usage else min 20 (length low_usage))
           in concat (map (low_usage_lines a references) (take display_count low_usage)))
        @ (if \<not> all_low_usage a \<and> length low_usage > 20
           then [lit ''  ... and '' @ str_nat (length low_usage - 20)
                 @ lit '' more (use --all-low-usage to show all)'']
           else [])
      else [])"

definition caveat :: "str list" where
  "caveat =
     [newline # replicate 70 (cp CHR ''=''),
      lit ''NOTE: Exported functions (capitalized) are excluded by default.'',
      lit ''      Use --include-exported to include them.'',
      lit ''      False positives may occur for reflection, interfaces, or external usage.'',
      replicate 70 (cp CHR ''='') @ [newline]]"

definition report ::
  "args \<Rightarrow> nat \<Rightarrow> nat \<Rightarrow> references \<Rightarrow> dead_candidate list \<Rightarrow> low_usage_entry list
    \<Rightarrow> str list" where
  \<comment> \<open>everything \<^verbatim>\<open>process\<close> prints after the analysis.\<close>
  "report a n_files n_functions references dead_candidates low_usage =
     banner a n_files n_functions (length dead_candidates) (length low_usage)
     @ (if summary a then []
        else dead_section a references dead_candidates
             @ low_usage_section a references low_usage
             @ caveat)"

subsection \<open>The run\<close>

text \<open>
  \<^verbatim>\<open>process\<close>, from the arguments, the current directory, what the glob for \<^verbatim>\<open>*.go\<close>
  yields there and the file system, to the two streams \<open>(stdout, stderr)\<close>. The analysis
  is a part of its own, so that its two lists can be named.
\<close>

definition classification ::
  "ucd \<Rightarrow> args \<Rightarrow> function_table \<Rightarrow> counters
    \<Rightarrow> error + (dead_candidate list \<times> low_usage_entry list)" where
  "classification u a functions counters = analyze u a counters (sorted_items functions) ([], [])"

definition process ::
  "ucd \<Rightarrow> args \<Rightarrow> path \<Rightarrow> path list \<Rightarrow> file_system \<Rightarrow> error + (str list \<times> str list)" where
  "process u a cwd found fs =
     (let err0 = log (lit ''Starting dead code detection...'') (verbose a);
          files = find_files cwd found;
          err1 = err0 @ log (lit ''Found '' @ str_nat (length files) @ lit '' Go files'') (verbose a)
      in if files = []
         then Inr ([], err1 @ [lit ''[ERROR] No Go files found in current directory''])
         else
           (let (functions, err2) = find_function_definitions u fs files (verbose a)
            in if functions = []
               then Inr ([], err1 @ err2 @ [lit ''[ERROR] No functions found''])
               else
                 (let ((counters, references), err3) =
                        count_references u fs files (map fst functions) (verbose a)
                  in case classification u a functions counters of
                       Inl e \<Rightarrow> Inl e
                     | Inr (dead_candidates, low_usage) \<Rightarrow>
                         Inr (report a (length files) (length functions) references
                                dead_candidates low_usage,
                              err1 @ err2 @ err3))))"

subsection \<open>Notions for the statements\<close>

text \<open>
  The three skips of the analysis loop, read off a name: it is skipped for the test
  prefix, for a leading upper-case letter, or for being one of the four fixed names.
\<close>

definition leading_upper :: "ucd \<Rightarrow> str \<Rightarrow> bool" where
  "leading_upper u n = (case n of [] \<Rightarrow> False | c # _ \<Rightarrow> isupper u c)"

definition excluded_name :: "ucd \<Rightarrow> args \<Rightarrow> str \<Rightarrow> bool" where
  "excluded_name u a n =
     ((\<not> include_tests a \<and> startswith n (lit ''Test''))
      \<or> (\<not> include_exported a \<and> leading_upper u n)
      \<or> n \<in> set false_positive_names)"

text \<open>The two threshold tests of the loop on an item, and the entries it appends.\<close>

definition dead_test :: "ucd \<Rightarrow> args \<Rightarrow> counters \<Rightarrow> str \<times> site list \<Rightarrow> bool" where
  "dead_test u a c item =
     (\<not> excluded_name u a (fst item) \<and> counter_of c (fst item) \<le> int (length (snd item)))"

definition low_test :: "ucd \<Rightarrow> args \<Rightarrow> counters \<Rightarrow> str \<times> site list \<Rightarrow> bool" where
  "low_test u a c item =
     (\<not> excluded_name u a (fst item)
      \<and> \<not> counter_of c (fst item) \<le> int (length (snd item))
      \<and> counter_of c (fst item) \<le> max_refs a + int (length (snd item)))"

definition dead_of :: "counters \<Rightarrow> str \<times> site list \<Rightarrow> dead_candidate" where
  "dead_of c item = (fst item, counter_of c (fst item), snd item)"

definition low_of :: "counters \<Rightarrow> str \<times> site list \<Rightarrow> low_usage_entry" where
  "low_of c item = (fst item, counter_of c (fst item), int (length (snd item)), snd item)"

text \<open>
  No character is both white space and a word character. It holds of the database of
  the interpreter; the determinate reading of \<^verbatim>\<open>FUNC_PATTERN\<close> above rests on it.
\<close>

definition separate_classes :: "ucd \<Rightarrow> bool" where
  "separate_classes u = (\<forall>c. is_space u c \<longrightarrow> \<not> is_word u c)"

text \<open>
  What the two passes take from one file, for a name: the definition sites on the lines
  that the declaration pattern matches with the name, and the number of tokens, over all
  lines, that are the name.
\<close>

definition sites_of :: "function_table \<Rightarrow> str \<Rightarrow> site list" where
  "sites_of functions n = (case map_of functions n of None \<Rightarrow> [] | Some defs \<Rightarrow> defs)"

definition line_sites :: "ucd \<Rightarrow> path \<Rightarrow> str \<Rightarrow> (nat \<times> str) list \<Rightarrow> site list" where
  "line_sites u filename n lines =
     map (\<lambda>nl. (path_str filename, fst nl)) (filter (\<lambda>nl. FUNC_PATTERN u (snd nl) = Some n) lines)"

definition file_sites :: "ucd \<Rightarrow> file_system \<Rightarrow> str \<Rightarrow> path \<Rightarrow> site list" where
  "file_sites u fs n filename = line_sites u filename n (fst (read_file fs filename))"

definition line_tokens :: "ucd \<Rightarrow> str \<Rightarrow> (nat \<times> str) list \<Rightarrow> int" where
  "line_tokens u n lines = (\<Sum>nl\<leftarrow>lines. int (count_list (WORD_BOUNDARY u (snd nl)) n))"

definition file_tokens :: "ucd \<Rightarrow> file_system \<Rightarrow> str \<Rightarrow> path \<Rightarrow> int" where
  "file_tokens u fs n filename = line_tokens u n (fst (read_file fs filename))"

text \<open>What a run has written to the error stream when it has found its files.\<close>

definition startup_log :: "args \<Rightarrow> nat \<Rightarrow> str list" where
  "startup_log a n_files =
     log (lit ''Starting dead code detection...'') (verbose a)
     @ log (lit ''Found '' @ str_nat n_files @ lit '' Go files'') (verbose a)"

subsection \<open>Example inputs\<close>

text \<open>
  The database up to U+00FF, the part that the examples use: the letters, digits and
  fractions of the Latin-1 block, its two white space characters NEL and NBSP, and its
  capital letters.
\<close>

definition latin1 :: "ucd" where
  "latin1 =
     \<lparr>ucd_alnum = (\<lambda>c. c = 170 \<or> c = 178 \<or> c = 179 \<or> c = 181 \<or> c = 185 \<or> c = 186
                       \<or> (188 \<le> c \<and> c \<le> 190) \<or> (192 \<le> c \<and> c \<le> 214)
                       \<or> (216 \<le> c \<and> c \<le> 246) \<or> (248 \<le> c \<and> c \<le> 255)),
      ucd_space = (\<lambda>c. c = 133 \<or> c = 160),
      ucd_upper = (\<lambda>c. (192 \<le> c \<and> c \<le> 214) \<or> (216 \<le> c \<and> c \<le> 222))\<rparr>"

text \<open>The arguments as \<^verbatim>\<open>main\<close> parses an empty command line.\<close>

definition default_args :: "args" where
  "default_args =
     \<lparr>verbose = False, max_refs = 1, include_exported = False, include_tests = False,
      summary = False, show_refs = False, all_low_usage = False\<rparr>"

definition include_all_args :: "args" where
  "include_all_args = default_args\<lparr>include_exported := True, include_tests := True\<rparr>"

definition include_tests_args :: "args" where
  "include_tests_args = default_args\<lparr>include_tests := True\<rparr>"



definition text_lines :: "str list \<Rightarrow> str list" where
  \<comment> \<open>the lines of a text file as the iteration gives them, each with its terminator.\<close>
  "text_lines ls = map (\<lambda>l. l @ [newline]) ls"

definition no_file :: "file_system" where
  "no_file = (\<lambda>_. OpenFails (lit ''[Errno 2] No such file or directory''))"

definition app_root :: "path" where
  \<comment> \<open>\<^verbatim>\<open>/srv/app\<close>\<close>
  "app_root = [lit ''/'', lit ''srv'', lit ''app'']"

definition usage_fs :: "file_system" where
  "usage_fs = no_file([lit ''a.go''] := Opened (text_lines
     [lit ''package a'',
      lit ''func once() {}'',
      lit ''func twice() {}'',
      lit ''func thrice() {}'',
      lit ''func main() { twice(); thrice(); thrice() }'']) None)"

definition usage_table :: "function_table" where
  "usage_table = fst (find_function_definitions latin1 usage_fs [[lit ''a.go'']] False)"

definition usage_counters :: "counters" where
  "usage_counters
     = fst (fst (count_references latin1 usage_fs [[lit ''a.go'']] (map fst usage_table) False))"

text \<open>
  A file with names of every kind; the last two declarations are of \<open>U+00C9lan\<close> and
  \<open>U+00E9lan\<close>, with a capital and a small e with acute accent.
\<close>

definition naming_fs :: "file_system" where
  "naming_fs = no_file([lit ''n.go''] := Opened (text_lines
     [lit ''package n'',
      lit ''func TestFoo(t *testing.T) {}'',
      lit ''func Helper() {}'',
      lit ''func (e *E) String() string { return e.Error() }'',
      lit ''func (e *E) Error() string { return helper() }'',
      lit ''func init() {}'',
      lit ''func main() {}'',
      lit ''func helper() string {}'',
      lit ''func '' @ [201] @ lit ''lan() {}'',
      lit ''func '' @ [233] @ lit ''lan() {}'']) None)"

definition naming_table :: "function_table" where
  "naming_table = fst (find_function_definitions latin1 naming_fs [[lit ''n.go'']] False)"

definition naming_counters :: "counters" where
  "naming_counters
     = fst (fst (count_references latin1 naming_fs [[lit ''n.go'']] (map fst naming_table) False))"

definition two_files_fs :: "file_system" where
  "two_files_fs = no_file
     ([lit ''a.go''] := Opened (text_lines [lit ''package a'', lit ''func helper() {}'']) None,
      [lit ''cmd'', lit ''b.go''] :=
         Opened (text_lines [lit ''package main'', lit ''func main() { helper() }'']) None)"

definition package_only_fs :: "file_system" where
  "package_only_fs = no_file([lit ''doc.go''] := Opened (text_lines
     [lit ''// Package app has no function.'', lit ''package app'']) None)"



text \<open>A project in the directory \<^verbatim>\<open>/srv/vendor/app\<close>, with one file in it.\<close>

definition vendor_root :: "path" where
  "vendor_root = [lit ''/'', lit ''srv'', lit ''vendor'', lit ''app'']"

definition main_only_fs :: "file_system" where
  "main_only_fs = no_file([lit ''main.go''] := Opened (text_lines
     [lit ''package main'', lit ''func main() {}'', lit ''func unused() {}'']) None)"


section \<open>Properties\<close>

subsection \<open>The analysis loop\<close>

lemma analyze_item_empty: "analyze_item u a c ([], defs) st = Inl IndexError"
  by (simp add: analyze_item_def startswith_def lit_def split: prod.splits)

lemma analyze_item_eq:
  "fst item \<noteq> [] \<Longrightarrow>
   analyze_item u a c item (d, l) =
     Inr (d @ (if dead_test u a c item then [dead_of c item] else []),
          l @ (if low_test u a c item then [low_of c item] else []))"
  by (cases item; cases "fst item")
     (auto simp: analyze_item_def dead_test_def low_test_def dead_of_def low_of_def
        excluded_name_def leading_upper_def Let_def)

lemma analyze_Inr_names:
  "analyze u a c items st = Inr r \<Longrightarrow> \<forall>item \<in> set items. fst item \<noteq> []"
proof (induction items arbitrary: st)
  case Nil
  then show ?case by simp
next
  case (Cons item items)
  then show ?case
    by (cases item) (auto simp: analyze_item_empty split: sum.splits)
qed

lemma analyze_lists:
  "\<forall>item \<in> set items. fst item \<noteq> [] \<Longrightarrow>
   analyze u a c items (d, l) =
     Inr (d @ map (dead_of c) (filter (dead_test u a c) items),
          l @ map (low_of c) (filter (low_test u a c) items))"
proof (induction items arbitrary: d l)
  case Nil
  then show ?case by simp
next
  case (Cons item items)
  then show ?case by (simp add: analyze_item_eq)
qed

lemma set_sorted_items: "set (sorted_items functions) = set functions"
  by (simp add: sorted_items_def)

lemma classification_lists:
  assumes "classification u a functions c = Inr (dead_candidates, low_usage)"
  shows "dead_candidates = map (dead_of c) (filter (dead_test u a c) (sorted_items functions))"
    and "low_usage = map (low_of c) (filter (low_test u a c) (sorted_items functions))"
proof -
  have "\<forall>item \<in> set (sorted_items functions). fst item \<noteq> []"
    using assms analyze_Inr_names unfolding classification_def by blast
  from analyze_lists [OF this, of u a c "[]" "[]"] assms
  show "dead_candidates = map (dead_of c) (filter (dead_test u a c) (sorted_items functions))"
    and "low_usage = map (low_of c) (filter (low_test u a c) (sorted_items functions))"
    by (simp_all add: classification_def)
qed

lemma classification_total:
  "\<forall>item \<in> set functions. fst item \<noteq> [] \<Longrightarrow>
   classification u a functions c =
     Inr (map (dead_of c) (filter (dead_test u a c) (sorted_items functions)),
          map (low_of c) (filter (low_test u a c) (sorted_items functions)))"
  by (simp add: classification_def analyze_lists set_sorted_items)

lemma fst_dead_of: "fst (dead_of c item) = fst item"
  by (simp add: dead_of_def)

lemma fst_low_of: "fst (low_of c item) = fst item"
  by (simp add: low_of_def)

lemma fst_image_filter:
  "fst ` set (filter P xs) = {n. \<exists>v. (n, v) \<in> set xs \<and> P (n, v)}"
  by force

lemma classification_names:
  assumes "classification u a functions c = Inr (dead_candidates, low_usage)"
  shows "fst ` set dead_candidates
           = {n. \<exists>defs. (n, defs) \<in> set functions \<and> dead_test u a c (n, defs)}"
    and "fst ` set low_usage
           = {n. \<exists>defs. (n, defs) \<in> set functions \<and> low_test u a c (n, defs)}"
proof -
  have "fst ` set dead_candidates = fst ` set (filter (dead_test u a c) (sorted_items functions))"
    unfolding classification_lists(1) [OF assms] by (simp add: image_image fst_dead_of)
  then show "fst ` set dead_candidates
           = {n. \<exists>defs. (n, defs) \<in> set functions \<and> dead_test u a c (n, defs)}"
    by (simp only: fst_image_filter set_sorted_items)
  have "fst ` set low_usage = fst ` set (filter (low_test u a c) (sorted_items functions))"
    unfolding classification_lists(2) [OF assms] by (simp add: image_image fst_low_of)
  then show "fst ` set low_usage
           = {n. \<exists>defs. (n, defs) \<in> set functions \<and> low_test u a c (n, defs)}"
    by (simp only: fst_image_filter set_sorted_items)
qed

lemma usage_table_value:
  "usage_table = [(lit ''once'', [(lit ''a.go'', 2)]), (lit ''twice'', [(lit ''a.go'', 3)]),
                  (lit ''thrice'', [(lit ''a.go'', 4)]), (lit ''main'', [(lit ''a.go'', 5)])]"
  by code_simp

lemma usage_classification:
  "classification latin1 default_args usage_table usage_counters =
     Inr ([(lit ''once'', 1, [(lit ''a.go'', 2)])], [(lit ''twice'', 2, 1, [(lit ''a.go'', 3)])])"
  by code_simp

lemma test_prefix_upper: "startswith n (lit ''Test'') \<Longrightarrow> leading_upper u n"
  by (cases n) (auto simp: startswith_def leading_upper_def isupper_def lit_def cp_def)

lemma listed_not_excluded:
  assumes "classification u a functions c = Inr (dead_candidates, low_usage)"
    and "func_name \<in> fst ` set dead_candidates \<union> fst ` set low_usage"
  shows "\<not> excluded_name u a func_name"
  using assms(2)
  unfolding classification_names(1) [OF assms(1)] classification_names(2) [OF assms(1)]
  by (auto simp: dead_test_def low_test_def)

lemma naming_classification_all:
  "classification latin1 include_all_args naming_table naming_counters =
     Inr ([(lit ''Helper'', 1, [(lit ''n.go'', 3)]), (lit ''TestFoo'', 1, [(lit ''n.go'', 2)]),
           (201 # lit ''lan'', 1, [(lit ''n.go'', 9)]),
           (233 # lit ''lan'', 1, [(lit ''n.go'', 10)])],
          [(lit ''helper'', 2, 1, [(lit ''n.go'', 8)])])"
  by code_simp

lemma naming_classification_tests:
  "classification latin1 include_tests_args naming_table naming_counters =
     Inr ([(233 # lit ''lan'', 1, [(lit ''n.go'', 10)])],
          [(lit ''helper'', 2, 1, [(lit ''n.go'', 8)])])"
  by code_simp

subsection \<open>The walk\<close>

lemma sort_mset_cong:
  fixes xs ys :: "'a :: linorder list"
  assumes "mset xs = mset ys"
  shows "sort xs = sort ys"
proof (rule properties_for_sort)
  show "mset (sort ys) = mset xs"
    using assms by simp
  show "sorted (sort ys)"
    by simp
qed

lemma find_files_mset_cong:
  assumes "mset found' = mset found"
  shows "find_files root found' = find_files root found"
proof -
  have "mset (filter (\<lambda>rel. \<not> skipped root rel) found')
      = mset (filter (\<lambda>rel. \<not> skipped root rel) found)"
    using assms by (simp only: mset_filter)
  then show ?thesis
    unfolding find_files_def by (rule sort_mset_cong)
qed

lemma skipped_iff: "skipped root rel \<longleftrightarrow> set (root @ rel) \<inter> set excluded_dirs \<noteq> {}"
  unfolding skipped_def by blast

lemma sorted_names_filter:
  "sorted (map (fst \<circ> f) (filter P (sorted_items functions)))"
  if "\<And>item. fst (f item) = fst item"
proof -
  have "map (fst \<circ> f) (filter P (sorted_items functions))
      = map fst (filter P (sort_key fst functions))"
    using that by (simp add: sorted_items_def)
  moreover have "sorted (map fst (filter P (sort_key fst functions)))"
    by (rule sorted_filter) simp
  ultimately show ?thesis
    by simp
qed

subsection \<open>A declared name is a token of its line\<close>

lemma space_not_word: "separate_classes u \<Longrightarrow> is_space u c \<Longrightarrow> \<not> is_word u c"
  by (simp add: separate_classes_def)

lemma words_from_run:
  "\<forall>x \<in> set w. is_word u x \<Longrightarrow> words_from u cur (w @ rest) = words_from u (cur @ w) rest"
  by (induction w arbitrary: cur) simp_all

lemma words_from_break:
  "\<not> is_word u c \<Longrightarrow> words_from u cur (xs @ c # rest) = words_from u cur xs @ words_from u [] rest"
  by (induction xs arbitrary: cur) simp_all

lemma words_from_stop:
  assumes "cur \<noteq> []" and "rest = [] \<or> \<not> is_word u (hd rest)"
  shows "cur \<in> set (words_from u cur rest)"
  using assms by (cases rest) (simp_all add: flush_def)

lemma word_at_listed:
  assumes "word_at u s = Some w"
  shows "w \<in> set (words_from u [] s)"
proof -
  let ?rest = "dropWhile (is_word u) s"
  from assms have w: "takeWhile (is_word u) s = w" and "w \<noteq> []"
    by (auto simp: word_at_def Let_def split: if_splits)
  have "\<forall>x \<in> set w. is_word u x"
    unfolding w [symmetric] by (blast dest: set_takeWhileD)
  then have "words_from u [] (w @ ?rest) = words_from u ([] @ w) ?rest"
    by (rule words_from_run)
  moreover have "w @ ?rest = s"
    unfolding w [symmetric] by (rule takeWhile_dropWhile_id)
  ultimately have "words_from u [] s = words_from u w ?rest"
    by simp
  moreover have "?rest = [] \<or> \<not> is_word u (hd ?rest)"
    using hd_dropWhile [of "is_word u" s] by blast
  ultimately show ?thesis
    using words_from_stop [OF \<open>w \<noteq> []\<close>] by simp
qed

lemma after_space_split:
  assumes "after_space u t = Some s"
  shows "\<exists>pre c. t = pre @ c # s \<and> is_space u c"
proof -
  let ?tw = "takeWhile (is_space u) t"
  from assms have tw: "?tw \<noteq> []" and s: "s = dropWhile (is_space u) t"
    by (auto simp: after_space_def split: if_splits)
  have "is_space u (last ?tw)"
    using tw last_in_set set_takeWhileD by metis
  moreover have "t = butlast ?tw @ last ?tw # s"
    using tw s by (metis append_butlast_last_id append.assoc append_Cons append_Nil
        takeWhile_dropWhile_id)
  ultimately show ?thesis
    by blast
qed

lemma word_after_space_listed:
  assumes sep: "separate_classes u"
    and "suffix t line" and "after_space u t = Some s" and "word_at u s = Some w"
  shows "w \<in> set (WORD_BOUNDARY u line)"
proof -
  from assms(2) obtain before where line: "line = before @ t"
    by (auto simp: suffix_def)
  from after_space_split [OF assms(3)] obtain pre c
    where t: "t = pre @ c # s" and "is_space u c"
    by blast
  with sep have "\<not> is_word u c"
    by (simp add: space_not_word)
  then have "words_from u [] ((before @ pre) @ c # s)
      = words_from u [] (before @ pre) @ words_from u [] s"
    by (rule words_from_break)
  then show ?thesis
    using word_at_listed [OF assms(4)] by (simp add: WORD_BOUNDARY_def line t)
qed

lemma after_space_suffix: "after_space u t = Some s \<Longrightarrow> suffix s t"
  by (auto simp: after_space_def suffix_dropWhile split: if_splits)

lemma receiver_and_name_listed:
  assumes sep: "separate_classes u"
    and "suffix r line" and "receiver_and_name u r = Some func_name"
  shows "func_name \<in> set (WORD_BOUNDARY u line)"
proof -
  let ?r1 = "dropWhile (\<lambda>x. x \<noteq> cp CHR '')'') r"
  from assms(3) obtain x r2 r3
    where r1: "?r1 = x # r2" and r3: "after_space u r2 = Some r3"
      and name: "word_at u r3 = Some func_name"
    unfolding receiver_and_name_def Let_def
    by (auto split: if_splits list.splits option.splits)
  have "suffix r2 ?r1"
    by (simp add: r1 suffix_ConsI)
  also have "suffix ?r1 r"
    by (rule suffix_dropWhile)
  also note assms(2)
  finally have "suffix r2 line" .
  with sep show ?thesis
    using r3 name by (rule word_after_space_listed)
qed

lemma declared_name_listed:
  assumes sep: "separate_classes u"
    and "suffix t line" and "after_space u t = Some s"
    and "declared_name u s = Some func_name"
  shows "func_name \<in> set (WORD_BOUNDARY u line)"
proof (cases s)
  case Nil
  with assms(4) show ?thesis
    by (simp add: declared_name_def)
next
  case (Cons c r)
  show ?thesis
  proof (cases "c = cp CHR ''(''")
    case False
    with assms(4) Cons have "word_at u s = Some func_name"
      by (simp add: declared_name_def)
    with assms(1,2,3) show ?thesis
      by (rule word_after_space_listed)
  next
    case True
    with assms(4) Cons have name: "receiver_and_name u r = Some func_name"
      by (simp add: declared_name_def)
    have "suffix r s"
      by (simp add: Cons suffix_ConsI)
    also have "suffix s t"
      using assms(3) by (rule after_space_suffix)
    also note assms(2)
    finally have "suffix r line" .
    with sep show ?thesis
      using name by (rule receiver_and_name_listed)
  qed
qed

lemma FUNC_PATTERN_listed:
  assumes sep: "separate_classes u"
    and "FUNC_PATTERN u line = Some func_name"
  shows "func_name \<in> set (WORD_BOUNDARY u line)"
proof -
  let ?t = "drop 4 (dropWhile (is_space u) line)"
  have t_line: "suffix ?t line"
    using suffix_drop suffix_dropWhile suffix_order.trans by blast
  from assms(2) obtain s where s: "after_space u ?t = Some s"
    and name: "declared_name u s = Some func_name"
    unfolding FUNC_PATTERN_def Let_def
    by (auto split: if_splits option.splits)
  from sep t_line s name show ?thesis
    by (rule declared_name_listed)
qed

subsection \<open>The table of definitions\<close>

lemma map_of_append_site:
  "map_of (append_site n s T) m = (if m = n then Some (sites_of T n @ [s]) else map_of T m)"
  by (induction T) (auto simp: sites_of_def)

lemma sites_of_append_site:
  "sites_of (append_site n s T) m = (if m = n then sites_of T n @ [s] else sites_of T m)"
  by (simp add: sites_of_def map_of_append_site)

lemma names_append_site:
  "map fst (append_site n s T)
     = (if n \<in> set (map fst T) then map fst T else map fst T @ [n])"
proof (induction T)
  case Nil
  then show ?case by simp
next
  case (Cons kv T)
  then show ?case by (cases kv) auto
qed

lemma keys_append_site:
  "set (map fst (append_site n s T)) = insert n (set (map fst T))"
  unfolding names_append_site by auto

lemma distinct_append_site:
  "distinct (map fst T) \<Longrightarrow> distinct (map fst (append_site n s T))"
  unfolding names_append_site by auto

lemma append_site_not_empty: "append_site n s T \<noteq> []"
  by (cases T) (auto split: if_splits)

lemma word_at_name: "word_at u s = Some n \<Longrightarrow> n \<noteq> []"
  by (auto simp: word_at_def Let_def split: if_splits)

lemma receiver_and_name_name: "receiver_and_name u r = Some n \<Longrightarrow> n \<noteq> []"
  unfolding receiver_and_name_def Let_def
  by (auto split: if_splits list.splits option.splits dest: word_at_name)

lemma declared_name_name: "declared_name u s = Some n \<Longrightarrow> n \<noteq> []"
  unfolding declared_name_def
  by (auto split: if_splits list.splits dest: word_at_name receiver_and_name_name)

lemma FUNC_PATTERN_name: "FUNC_PATTERN u line = Some n \<Longrightarrow> n \<noteq> []"
  unfolding FUNC_PATTERN_def Let_def
  by (auto split: if_splits option.splits dest: declared_name_name)

lemma definition_line_sites:
  "sites_of (definition_line u filename nl T) n = sites_of T n @ line_sites u filename n [nl]"
  by (simp add: definition_line_def line_sites_def sites_of_append_site split: option.splits)

lemma definition_line_distinct:
  "distinct (map fst T) \<Longrightarrow> distinct (map fst (definition_line u filename nl T))"
  by (simp add: definition_line_def distinct_append_site split: option.splits)

lemma append_site_names:
  "[] \<notin> set (map fst T) \<Longrightarrow> n \<noteq> [] \<Longrightarrow> [] \<notin> set (map fst (append_site n s T))"
  unfolding names_append_site by auto

lemma definition_line_names:
  assumes "[] \<notin> set (map fst T)"
  shows "[] \<notin> set (map fst (definition_line u filename nl T))"
proof (cases "FUNC_PATTERN u (snd nl)")
  case None
  with assms show ?thesis
    by (simp add: definition_line_def)
next
  case (Some n)
  then have "n \<noteq> []"
    by (rule FUNC_PATTERN_name)
  with assms have "[] \<notin> set (map fst (append_site n (path_str filename, fst nl) T))"
    by (rule append_site_names)
  with Some show ?thesis
    by (simp add: definition_line_def)
qed

lemma line_sites_append:
  "line_sites u filename n (xs @ ys) = line_sites u filename n xs @ line_sites u filename n ys"
  by (simp add: line_sites_def)

lemma definition_lines_sites:
  "sites_of (fold (definition_line u filename) lines T) n
     = sites_of T n @ line_sites u filename n lines"
proof (induction lines arbitrary: T)
  case Nil
  then show ?case by (simp add: line_sites_def)
next
  case (Cons nl lines)
  have "line_sites u filename n (nl # lines)
      = line_sites u filename n [nl] @ line_sites u filename n lines"
    using line_sites_append [of u filename n "[nl]" lines] by simp
  with Cons show ?case
    by (simp add: definition_line_sites)
qed

lemma definition_lines_distinct:
  "distinct (map fst T) \<Longrightarrow> distinct (map fst (fold (definition_line u filename) lines T))"
  by (induction lines arbitrary: T) (simp_all add: definition_line_distinct)

lemma definition_lines_names:
  "[] \<notin> set (map fst T) \<Longrightarrow>
   [] \<notin> set (map fst (fold (definition_line u filename) lines T))"
proof (induction lines arbitrary: T)
  case Nil
  then show ?case by simp
next
  case (Cons nl lines)
  from Cons.prems have "[] \<notin> set (map fst (definition_line u filename nl T))"
    by (rule definition_line_names)
  then show ?case
    using Cons.IH by simp
qed

lemma definition_file_fst:
  "fst (definition_file u fs filename st)
     = fold (definition_line u filename) (fst (read_file fs filename)) (fst st)"
  by (simp add: definition_file_def split: prod.splits)

lemma definition_file_snd:
  "snd (definition_file u fs filename st) = snd st @ snd (read_file fs filename)"
  by (simp add: definition_file_def split: prod.splits)

lemma definition_files_sites:
  "sites_of (fst (fold (definition_file u fs) files st)) n
     = sites_of (fst st) n @ concat (map (file_sites u fs n) files)"
proof (induction files arbitrary: st)
  case Nil
  then show ?case by simp
next
  case (Cons f files)
  show ?case
    by (simp add: Cons.IH definition_file_fst definition_lines_sites file_sites_def)
qed

lemma definition_files_distinct:
  "distinct (map fst (fst st)) \<Longrightarrow> distinct (map fst (fst (fold (definition_file u fs) files st)))"
proof (induction files arbitrary: st)
  case Nil
  then show ?case by simp
next
  case (Cons f files)
  from Cons.prems have "distinct (map fst (fst (definition_file u fs f st)))"
    by (simp add: definition_file_fst definition_lines_distinct)
  then show ?case
    using Cons.IH by simp
qed

lemma definition_files_names:
  "[] \<notin> set (map fst (fst st)) \<Longrightarrow>
   [] \<notin> set (map fst (fst (fold (definition_file u fs) files st)))"
proof (induction files arbitrary: st)
  case Nil
  then show ?case by simp
next
  case (Cons f files)
  from Cons.prems have "[] \<notin> set (map fst (fst (definition_file u fs f st)))"
    unfolding definition_file_fst by (rule definition_lines_names)
  then show ?case
    using Cons.IH by simp
qed

lemma definition_files_snd:
  "snd (fold (definition_file u fs) files st)
     = snd st @ concat (map (\<lambda>f. snd (read_file fs f)) files)"
  by (induction files arbitrary: st) (simp_all add: definition_file_snd)

lemma find_function_definitions_fst:
  "fst (find_function_definitions u fs files v) = fst (fold (definition_file u fs) files ([], []))"
  by (simp add: find_function_definitions_def split: prod.splits)

lemma find_function_definitions_sites:
  "sites_of (fst (find_function_definitions u fs files v)) n
     = concat (map (file_sites u fs n) files)"
proof -
  have "sites_of [] n = []"
    by (simp add: sites_of_def)
  then show ?thesis
    using definition_files_sites [of u fs files "([], [])" n]
    by (simp add: find_function_definitions_fst)
qed

lemma find_function_definitions_distinct:
  "distinct (map fst (fst (find_function_definitions u fs files v)))"
  by (simp add: find_function_definitions_fst definition_files_distinct)

lemma find_function_definitions_names:
  "\<forall>item \<in> set (fst (find_function_definitions u fs files v)). fst item \<noteq> []"
proof -
  have "[] \<notin> set (map fst (fst (fold (definition_file u fs) files ([], []))))"
    by (rule definition_files_names) simp
  then show ?thesis
    unfolding find_function_definitions_fst by force
qed

lemma table_sites:
  assumes "distinct (map fst T)" and "(n, defs) \<in> set T"
  shows "sites_of T n = defs"
  using assms by (simp add: sites_of_def)

subsection \<open>The counters\<close>

lemma reference_word_counter:
  "counter_of (fst (reference_word u S filename nl w st)) n
     = counter_of (fst st) n + (if w = n \<and> n \<in> S then 1 else 0)"
  by (auto simp: reference_word_def counter_of_def)

lemma reference_words_counter:
  "counter_of (fst (fold (reference_word u S filename nl) ws st)) n
     = counter_of (fst st) n + (if n \<in> S then int (count_list ws n) else 0)"
proof (induction ws arbitrary: st)
  case Nil
  then show ?case by simp
next
  case (Cons w ws)
  show ?case
    by (simp add: Cons.IH reference_word_counter)
qed

lemma reference_line_counter:
  "counter_of (fst (reference_line u S filename nl st)) n
     = counter_of (fst st) n
       + (if n \<in> S then int (count_list (WORD_BOUNDARY u (snd nl)) n) else 0)"
  by (simp add: reference_line_def reference_words_counter)

lemma line_tokens_Cons:
  "line_tokens u n (nl # lines)
     = int (count_list (WORD_BOUNDARY u (snd nl)) n) + line_tokens u n lines"
  by (simp add: line_tokens_def)

lemma reference_lines_counter:
  "counter_of (fst (fold (reference_line u S filename) lines st)) n
     = counter_of (fst st) n + (if n \<in> S then line_tokens u n lines else 0)"
proof (induction lines arbitrary: st)
  case Nil
  then show ?case by (simp add: line_tokens_def)
next
  case (Cons nl lines)
  show ?case
    by (simp add: Cons.IH reference_line_counter line_tokens_Cons)
qed

lemma reference_file_fst:
  "fst (reference_file u fs S v t (i, filename) st)
     = fold (reference_line u S filename) (fst (read_file fs filename)) (fst st)"
  by (simp add: reference_file_def Let_def split: prod.splits)

lemma reference_files_counter:
  "counter_of (fst (fst (fold (reference_file u fs S v t) ifiles st))) n
     = counter_of (fst (fst st)) n
       + (if n \<in> S then (\<Sum>f\<leftarrow>map snd ifiles. file_tokens u fs n f) else 0)"
proof (induction ifiles arbitrary: st)
  case Nil
  then show ?case by simp
next
  case (Cons ifile ifiles)
  obtain i f where ifile: "ifile = (i, f)"
    by (cases ifile)
  show ?case
    by (simp add: Cons.IH ifile reference_file_fst reference_lines_counter file_tokens_def)
qed

lemma count_references_fst:
  "fst (count_references u fs files names v)
     = fst (fold (reference_file u fs (set names) v (length files)) (enumerate 0 files)
              ((Map.empty, Map.empty), []))"
  by (simp add: count_references_def Let_def split: prod.splits)

lemma count_references_counter:
  "counter_of (fst (fst (count_references u fs files names v))) n
     = (if n \<in> set names then (\<Sum>f\<leftarrow>files. file_tokens u fs n f) else 0)"
proof -
  have "counter_of Map.empty n = 0"
    by (simp add: counter_of_def)
  then show ?thesis
    using reference_files_counter
      [of u fs "set names" v "length files" "enumerate 0 files"
        "((Map.empty, Map.empty), [])" n]
    by (simp add: count_references_fst)
qed

subsection \<open>Definitions against occurrences\<close>

lemma line_sites_Cons:
  "length (line_sites u filename n (nl # lines))
     = (if FUNC_PATTERN u (snd nl) = Some n then 1 else 0) + length (line_sites u filename n lines)"
  by (simp add: line_sites_def)

lemma line_sites_le_tokens:
  assumes sep: "separate_classes u"
  shows "int (length (line_sites u filename n lines)) \<le> line_tokens u n lines"
proof (induction lines)
  case Nil
  then show ?case by (simp add: line_sites_def line_tokens_def)
next
  case (Cons nl lines)
  have "(if FUNC_PATTERN u (snd nl) = Some n then 1 else 0)
      \<le> count_list (WORD_BOUNDARY u (snd nl)) n"
  proof (cases "FUNC_PATTERN u (snd nl) = Some n")
    case True
    with sep have "n \<in> set (WORD_BOUNDARY u (snd nl))"
      by (rule FUNC_PATTERN_listed)
    then have "count_list (WORD_BOUNDARY u (snd nl)) n \<noteq> 0"
      by (simp add: count_list_0_iff)
    with True show ?thesis
      by simp
  next
    case False
    then show ?thesis
      by simp
  qed
  then show ?case
    using Cons.IH unfolding line_sites_Cons line_tokens_Cons by linarith
qed

lemma file_sites_le_tokens:
  assumes sep: "separate_classes u"
  shows "int (length (concat (map (file_sites u fs n) files)))
      \<le> (\<Sum>f\<leftarrow>files. file_tokens u fs n f)"
proof (induction files)
  case Nil
  then show ?case by simp
next
  case (Cons f files)
  have "int (length (file_sites u fs n f)) \<le> file_tokens u fs n f"
    unfolding file_sites_def file_tokens_def using sep by (rule line_sites_le_tokens)
  with Cons.IH show ?case
    by simp
qed

subsection \<open>The three ways a run ends\<close>

lemma process_no_files:
  assumes "find_files cwd found = []"
  shows "process u a cwd found fs
     = Inr ([], startup_log a 0 @ [lit ''[ERROR] No Go files found in current directory''])"
  using assms by (simp add: process_def startup_log_def)

lemma process_no_functions:
  assumes "find_files cwd found = files" and "files \<noteq> []"
    and "find_function_definitions u fs files (verbose a) = ([], err2)"
  shows "process u a cwd found fs
     = Inr ([], startup_log a (length files) @ err2 @ [lit ''[ERROR] No functions found''])"
  using assms by (simp add: process_def startup_log_def)

lemma process_report:
  assumes "find_files cwd found = files" and "files \<noteq> []"
    and "find_function_definitions u fs files (verbose a) = (functions, err2)"
    and "functions \<noteq> []"
    and "count_references u fs files (map fst functions) (verbose a)
           = ((counters, references), err3)"
    and "classification u a functions counters = Inr (dead_candidates, low_usage)"
  shows "process u a cwd found fs
     = Inr (report a (length files) (length functions) references dead_candidates low_usage,
            startup_log a (length files) @ err2 @ err3)"
  using assms by (simp add: process_def startup_log_def)

lemma extracted_classification:
  assumes "find_function_definitions u fs files v = (functions, err2)"
  shows "classification u a functions counters =
     Inr (map (dead_of counters) (filter (dead_test u a counters) (sorted_items functions)),
          map (low_of counters) (filter (low_test u a counters) (sorted_items functions)))"
proof -
  have "functions = fst (find_function_definitions u fs files v)"
    by (simp add: assms)
  then have "\<forall>item \<in> set functions. fst item \<noteq> []"
    using find_function_definitions_names by simp
  then show ?thesis
    by (rule classification_total)
qed

lemma report_not_empty: "report a n_files n_functions references dead_candidates low_usage \<noteq> []"
  by (simp add: report_def banner_def)

lemma package_only_run:
  "process latin1 default_args app_root [[lit ''doc.go'']] package_only_fs
     = Inr ([], [lit ''[ERROR] No functions found''])"
  by code_simp

lemma package_only_files:
  "find_files app_root [[lit ''doc.go'']] = [[lit ''doc.go'']]"
  by code_simp

lemma usage_first_pass:
  "find_function_definitions latin1 usage_fs [[lit ''a.go'']] False = (usage_table, [])"
  by code_simp

lemma usage_files: "find_files app_root [[lit ''a.go'']] = [[lit ''a.go'']]"
  by code_simp

lemma quiet_startup: "\<not> verbose a \<Longrightarrow> startup_log a n = []"
  by (simp add: startup_log_def log_def)

lemma default_quiet: "\<not> verbose default_args"
  by (simp add: default_args_def)





subsection \<open>A file that yields no line\<close>





subsection \<open>The walk under a root with no excluded component\<close>

lemma find_files_clean_root:
  assumes "set root \<inter> set excluded_dirs = {}"
  shows "sorted (find_files root found)
       \<and> mset (find_files root found)
           = filter_mset (\<lambda>rel. set rel \<inter> set excluded_dirs = {}) (mset found)"
proof -
  have "mset (find_files root found)
       = filter_mset (\<lambda>rel. set (root @ rel) \<inter> set excluded_dirs = {}) (mset found)"
    by (simp add: find_files_def skipped_iff)
  also have "\<dots> = filter_mset (\<lambda>rel. set rel \<inter> set excluded_dirs = {}) (mset found)"
    using assms by (intro filter_mset_cong refl) auto
  finally show ?thesis
    by (simp add: find_files_def)
qed

section \<open>The claims\<close>

text \<open>
  Claim C5. A symbol that none of the three skips excludes is classified by its counts:
  with at most as many occurrences as definition sites it is appended to the dead
  candidates; otherwise, with at most \<open>max_refs\<close> occurrences more than definition sites,
  it is appended to the low-usage list, with both counts, and the report shows their
  difference for it; otherwise it is in neither list. The function table is a dictionary,
  so each name is a key once. The example has one definition site for each name and the
  default threshold 1: one occurrence is dead, two are low usage with a difference of 1,
  three are omitted.
\<close>

theorem classifier_thresholds:
  assumes run: "classification u a functions counters = Inr (dead_candidates, low_usage)"
    and keys: "distinct (map fst functions)"
    and sym: "(func_name, definitions) \<in> set functions"
    and kept: "\<not> excluded_name u a func_name"
  shows "(counter_of counters func_name \<le> int (length definitions) \<longrightarrow>
            (func_name, counter_of counters func_name, definitions) \<in> set dead_candidates
            \<and> func_name \<notin> fst ` set low_usage)
       \<and> (\<not> counter_of counters func_name \<le> int (length definitions)
          \<and> counter_of counters func_name \<le> int (length definitions) + max_refs a \<longrightarrow>
            (func_name, counter_of counters func_name, int (length definitions), definitions)
              \<in> set low_usage
            \<and> actual_refs (func_name, counter_of counters func_name,
                             int (length definitions), definitions)
                = counter_of counters func_name - int (length definitions)
            \<and> func_name \<notin> fst ` set dead_candidates)
       \<and> (\<not> counter_of counters func_name \<le> int (length definitions)
          \<and> \<not> counter_of counters func_name \<le> int (length definitions) + max_refs a \<longrightarrow>
            func_name \<notin> fst ` set dead_candidates \<and> func_name \<notin> fst ` set low_usage)"
proof -
  let ?item = "(func_name, definitions)"
  have only: "defs = definitions" if "(func_name, defs) \<in> set functions" for defs
    using eq_key_imp_eq_value [OF keys that sym] .
  have dead_iff: "func_name \<in> fst ` set dead_candidates \<longleftrightarrow> dead_test u a counters ?item"
    unfolding classification_names(1) [OF run] using sym only by blast
  have low_iff: "func_name \<in> fst ` set low_usage \<longleftrightarrow> low_test u a counters ?item"
    unfolding classification_names(2) [OF run] using sym only by blast
  have dead_in: "dead_of counters ?item \<in> set dead_candidates" if "dead_test u a counters ?item"
    unfolding classification_lists(1) [OF run] using sym that
    by (simp add: set_sorted_items)
  have low_in: "low_of counters ?item \<in> set low_usage" if "low_test u a counters ?item"
    unfolding classification_lists(2) [OF run] using sym that
    by (simp add: set_sorted_items)
  have tests: "dead_test u a counters ?item
      \<longleftrightarrow> counter_of counters func_name \<le> int (length definitions)"
    "low_test u a counters ?item
      \<longleftrightarrow> \<not> counter_of counters func_name \<le> int (length definitions)
        \<and> counter_of counters func_name \<le> int (length definitions) + max_refs a"
    using kept by (auto simp: dead_test_def low_test_def)
  have entries: "dead_of counters ?item = (func_name, counter_of counters func_name, definitions)"
    "low_of counters ?item
       = (func_name, counter_of counters func_name, int (length definitions), definitions)"
    by (simp_all add: dead_of_def low_of_def)
  have extra: "actual_refs (func_name, counter_of counters func_name,
                  int (length definitions), definitions)
                = counter_of counters func_name - int (length definitions)"
    by (simp add: actual_refs_def)
  show ?thesis
    using dead_in low_in extra unfolding dead_iff low_iff tests entries by blast
qed

theorem classifier_thresholds_witness:
  "classification latin1 default_args usage_table usage_counters
     = Inr ([(lit ''once'', 1, [(lit ''a.go'', 2)])],
            [(lit ''twice'', 2, 1, [(lit ''a.go'', 3)])])
   \<and> max_refs default_args = 1
   \<and> counter_of usage_counters (lit ''once'') = 1
   \<and> counter_of usage_counters (lit ''twice'') = 2
   \<and> counter_of usage_counters (lit ''thrice'') = 3
   \<and> (lit ''once'', 1, [(lit ''a.go'', 2)])
       \<in> set [(lit ''once'', 1, [(lit ''a.go'', 2 :: nat)])]
   \<and> (lit ''twice'', 2, 1, [(lit ''a.go'', 3)])
       \<in> set [(lit ''twice'', 2, 1, [(lit ''a.go'', 3 :: nat)])]
   \<and> actual_refs (lit ''twice'', 2, 1, [(lit ''a.go'', 3)]) = 1
   \<and> lit ''thrice'' \<notin> fst ` set [(lit ''once'', 1 :: int, [(lit ''a.go'', 2 :: nat)])]
   \<and> lit ''thrice''
       \<notin> fst ` set [(lit ''twice'', 2 :: int, 1 :: int, [(lit ''a.go'', 3 :: nat)])]"
proof -
  have keys: "distinct (map fst usage_table)"
    by code_simp
  have once: "(lit ''once'', [(lit ''a.go'', 2)]) \<in> set usage_table"
    and twice: "(lit ''twice'', [(lit ''a.go'', 3)]) \<in> set usage_table"
    and thrice: "(lit ''thrice'', [(lit ''a.go'', 4)]) \<in> set usage_table"
    by (simp_all add: usage_table_value)
  have kept: "\<not> excluded_name latin1 default_args (lit ''once'')"
    "\<not> excluded_name latin1 default_args (lit ''twice'')"
    "\<not> excluded_name latin1 default_args (lit ''thrice'')"
    by code_simp+
  have counts: "counter_of usage_counters (lit ''once'') = 1"
    "counter_of usage_counters (lit ''twice'') = 2"
    "counter_of usage_counters (lit ''thrice'') = 3"
    by code_simp+
  have threshold: "max_refs default_args = 1"
    by (simp add: default_args_def)
  note once_case = classifier_thresholds [OF usage_classification keys once kept(1)]
  note twice_case = classifier_thresholds [OF usage_classification keys twice kept(2)]
  note thrice_case = classifier_thresholds [OF usage_classification keys thrice kept(3)]
  have a: "(lit ''once'', 1, [(lit ''a.go'', 2)])
      \<in> set [(lit ''once'', 1, [(lit ''a.go'', 2 :: nat)])]"
    using once_case unfolding counts by simp
  have b: "(lit ''twice'', 2, 1, [(lit ''a.go'', 3)])
      \<in> set [(lit ''twice'', 2, 1, [(lit ''a.go'', 3 :: nat)])]
     \<and> actual_refs (lit ''twice'', 2, 1, [(lit ''a.go'', 3)]) = 1"
    using twice_case unfolding counts threshold by simp
  have c: "lit ''thrice'' \<notin> fst ` set [(lit ''once'', 1 :: int, [(lit ''a.go'', 2 :: nat)])]
     \<and> lit ''thrice''
         \<notin> fst ` set [(lit ''twice'', 2 :: int, 1 :: int, [(lit ''a.go'', 3 :: nat)])]"
    using thrice_case unfolding counts threshold by simp
  show ?thesis
    using usage_classification counts threshold a b c by blast
qed

text \<open>
  Claim C7. The detail lines of the report are printed from the two lists of the
  analysis, and a name in either list passed all three skips: it has the prefix
  \<^verbatim>\<open>Test\<close> only if tests are included, its first character is upper case, by the
  database and so beyond ASCII as well, only if exported names are included, and it is
  none of \<^verbatim>\<open>init\<close>, \<^verbatim>\<open>main\<close>, \<^verbatim>\<open>String\<close> and \<^verbatim>\<open>Error\<close>, whatever the flags are. In the
  example the name \<open>U+00C9lan\<close> is listed with both flags set.
\<close>

theorem exclusion_correctness:
  assumes run: "classification u a functions counters = Inr (dead_candidates, low_usage)"
    and listed: "func_name \<in> fst ` set dead_candidates \<union> fst ` set low_usage"
  shows "(startswith func_name (lit ''Test'') \<longrightarrow> include_tests a)
       \<and> (leading_upper u func_name \<longrightarrow> include_exported a)
       \<and> func_name \<notin> {lit ''init'', lit ''main'', lit ''String'', lit ''Error''}"
proof -
  have "\<not> excluded_name u a func_name"
    using run listed by (rule listed_not_excluded)
  then show ?thesis
    by (auto simp: excluded_name_def false_positive_names_def)
qed

theorem exclusion_correctness_witness:
  "classification latin1 include_all_args naming_table naming_counters =
     Inr ([(lit ''Helper'', 1, [(lit ''n.go'', 3)]), (lit ''TestFoo'', 1, [(lit ''n.go'', 2)]),
           (201 # lit ''lan'', 1, [(lit ''n.go'', 9)]),
           (233 # lit ''lan'', 1, [(lit ''n.go'', 10)])],
          [(lit ''helper'', 2, 1, [(lit ''n.go'', 8)])])
   \<and> 201 # lit ''lan''
       \<in> fst ` set [(lit ''Helper'', 1 :: int, [(lit ''n.go'', 3 :: nat)]),
                     (lit ''TestFoo'', 1, [(lit ''n.go'', 2)]),
                     (201 # lit ''lan'', 1, [(lit ''n.go'', 9)]),
                     (233 # lit ''lan'', 1, [(lit ''n.go'', 10)])]
         \<union> fst ` set [(lit ''helper'', 2 :: int, 1 :: int, [(lit ''n.go'', 8 :: nat)])]
   \<and> leading_upper latin1 (201 # lit ''lan'') \<and> include_exported include_all_args
   \<and> \<not> startswith (201 # lit ''lan'') (lit ''Test'')
   \<and> 201 # lit ''lan'' \<notin> {lit ''init'', lit ''main'', lit ''String'', lit ''Error''}"
proof -
  have listed: "201 # lit ''lan''
       \<in> fst ` set [(lit ''Helper'', 1 :: int, [(lit ''n.go'', 3 :: nat)]),
                     (lit ''TestFoo'', 1, [(lit ''n.go'', 2)]),
                     (201 # lit ''lan'', 1, [(lit ''n.go'', 9)]),
                     (233 # lit ''lan'', 1, [(lit ''n.go'', 10)])]
         \<union> fst ` set [(lit ''helper'', 2 :: int, 1 :: int, [(lit ''n.go'', 8 :: nat)])]"
    by simp
  have upper: "leading_upper latin1 (201 # lit ''lan'')"
    by (simp add: leading_upper_def isupper_def latin1_def)
  have prefix: "\<not> startswith (201 # lit ''lan'') (lit ''Test'')"
    by (simp add: startswith_def lit_def cp_def)
  show ?thesis
    using exclusion_correctness [OF naming_classification_all listed]
      naming_classification_all listed upper prefix
    by blast
qed

text \<open>
  Claim C10. A name with the prefix \<^verbatim>\<open>Test\<close> begins with the upper-case letter T, so
  the skip of exported names takes it as well: while exported names are not included it
  is in neither list, whether tests are included or not.
\<close>

theorem test_prefix_needs_exported:
  assumes run: "classification u a functions counters = Inr (dead_candidates, low_usage)"
    and prefix: "startswith func_name (lit ''Test'')"
    and flag: "\<not> include_exported a"
  shows "leading_upper u func_name
       \<and> func_name \<notin> fst ` set dead_candidates \<union> fst ` set low_usage"
proof -
  have upper: "leading_upper u func_name"
    using prefix by (rule test_prefix_upper)
  then have "excluded_name u a func_name"
    using flag by (simp add: excluded_name_def)
  then show ?thesis
    using upper listed_not_excluded [OF run] by blast
qed

theorem test_prefix_needs_exported_witness:
  "classification latin1 include_tests_args naming_table naming_counters =
     Inr ([(233 # lit ''lan'', 1, [(lit ''n.go'', 10)])],
          [(lit ''helper'', 2, 1, [(lit ''n.go'', 8)])])
   \<and> include_tests include_tests_args \<and> \<not> include_exported include_tests_args
   \<and> startswith (lit ''TestFoo'') (lit ''Test'')
   \<and> (lit ''TestFoo'', [(lit ''n.go'', 2)]) \<in> set naming_table
   \<and> leading_upper latin1 (lit ''TestFoo'')
   \<and> lit ''TestFoo''
       \<notin> fst ` set [(233 # lit ''lan'', 1 :: int, [(lit ''n.go'', 10 :: nat)])]
         \<union> fst ` set [(lit ''helper'', 2 :: int, 1 :: int, [(lit ''n.go'', 8 :: nat)])]"
proof -
  have prefix: "startswith (lit ''TestFoo'') (lit ''Test'')"
    by (simp add: startswith_def lit_def)
  have flags: "include_tests include_tests_args" "\<not> include_exported include_tests_args"
    by (simp_all add: include_tests_args_def default_args_def)
  have declared: "(lit ''TestFoo'', [(lit ''n.go'', 2)]) \<in> set naming_table"
    by code_simp
  show ?thesis
    using test_prefix_needs_exported [OF naming_classification_tests prefix flags(2)]
      naming_classification_tests prefix flags declared
    by blast
qed

text \<open>
  Claim C9. The walk tests the parts of the path as the glob yields it, which begins with
  the parts of the root, and takes the path relative to the root only afterwards. For
  a project in \<^verbatim>\<open>/srv/vendor/app\<close> the one file \<^verbatim>\<open>main.go\<close>, whose path below the root has
  no excluded component, is therefore skipped: the walk returns nothing, and the run ends
  with the error that there is no Go file in the current directory.
\<close>

theorem find_files_vendor_root:
  "set [lit ''main.go''] \<inter> set excluded_dirs = {}
   \<and> find_files vendor_root [[lit ''main.go'']] = []
   \<and> process latin1 default_args vendor_root [[lit ''main.go'']] main_only_fs
       = Inr ([], [lit ''[ERROR] No Go files found in current directory''])"
proof -
  have "set [lit ''main.go''] \<inter> set excluded_dirs = {}"
    by code_simp
  moreover have "find_files vendor_root [[lit ''main.go'']] = []"
    by code_simp
  moreover have "process latin1 default_args vendor_root [[lit ''main.go'']] main_only_fs
       = Inr ([], [lit ''[ERROR] No Go files found in current directory''])"
    by code_simp
  ultimately show ?thesis
    by blast
qed

text \<open>
  Claim C8. A run is a function of the arguments, the current directory, the entries the
  glob yields and the files. The one thing two runs over an unchanged tree can differ in
  is the order in which the glob yields the entries, and the run does not depend on it:
  both streams are the same for two enumerations of the same entries. The two lists the
  report is printed from are in the order of the names.
\<close>

theorem process_deterministic:
  assumes "mset found' = mset found"
  shows "process u a cwd found' fs = process u a cwd found fs
       \<and> (classification u a functions counters = Inr (dead_candidates, low_usage) \<longrightarrow>
            sorted (map fst dead_candidates) \<and> sorted (map fst low_usage))"
proof -
  have "process u a cwd found' fs = process u a cwd found fs"
    unfolding process_def find_files_mset_cong [OF assms] ..
  moreover have "sorted (map fst dead_candidates) \<and> sorted (map fst low_usage)"
    if run: "classification u a functions counters = Inr (dead_candidates, low_usage)"
    unfolding classification_lists [OF run]
    by (simp add: sorted_names_filter fst_dead_of fst_low_of)
  ultimately show ?thesis
    by blast
qed

theorem process_deterministic_witness:
  "mset [[lit ''cmd'', lit ''b.go''], [lit ''a.go'']]
     = mset [[lit ''a.go''], [lit ''cmd'', lit ''b.go'']]
   \<and> process latin1 include_all_args app_root [[lit ''cmd'', lit ''b.go''], [lit ''a.go'']]
         two_files_fs
     = process latin1 include_all_args app_root [[lit ''a.go''], [lit ''cmd'', lit ''b.go'']]
         two_files_fs
   \<and> classification latin1 include_all_args naming_table naming_counters =
       Inr ([(lit ''Helper'', 1, [(lit ''n.go'', 3)]), (lit ''TestFoo'', 1, [(lit ''n.go'', 2)]),
             (201 # lit ''lan'', 1, [(lit ''n.go'', 9)]),
             (233 # lit ''lan'', 1, [(lit ''n.go'', 10)])],
            [(lit ''helper'', 2, 1, [(lit ''n.go'', 8)])])
   \<and> sorted (map fst [(lit ''Helper'', 1 :: int, [(lit ''n.go'', 3 :: nat)]),
                         (lit ''TestFoo'', 1, [(lit ''n.go'', 2)]),
                         (201 # lit ''lan'', 1, [(lit ''n.go'', 9)]),
                         (233 # lit ''lan'', 1, [(lit ''n.go'', 10)])])
   \<and> sorted (map fst [(lit ''helper'', 2 :: int, 1 :: int, [(lit ''n.go'', 8 :: nat)])])"
proof -
  have same: "mset [[lit ''cmd'', lit ''b.go''], [lit ''a.go'']]
      = mset [[lit ''a.go''], [lit ''cmd'', lit ''b.go'']]"
    by simp
  show ?thesis
    using process_deterministic [OF same, of latin1 include_all_args app_root
        two_files_fs naming_table naming_counters]
      same naming_classification_all
    by blast
qed

text \<open>
  Claim C6. Both passes read the files of the same file system, and the classes are those
  of a database in which no character is both white space and a word character, as in
  the interpreter's. For a name in the table of the first pass, with its list of
  definition sites, the counter of the second pass, which is given the names of that
  table, is at least the length of the list: a line that the declaration pattern matches
  with a name has that name among its tokens. The example is the declaration of
  \<open>U+00E9lan\<close>.
\<close>

theorem occurrences_cover_definitions:
  assumes classes: "separate_classes u"
    and first_pass: "find_function_definitions u fs files v = (functions, err)"
    and second_pass: "count_references u fs files (map fst functions) v'
                        = ((counters, references), err')"
    and sym: "(func_name, definitions) \<in> set functions"
  shows "int (length definitions) \<le> counter_of counters func_name
       \<and> (\<forall>line. FUNC_PATTERN u line = Some func_name
                   \<longrightarrow> func_name \<in> set (WORD_BOUNDARY u line))"
proof -
  have table: "functions = fst (find_function_definitions u fs files v)"
    by (simp add: first_pass)
  have "distinct (map fst functions)"
    unfolding table by (rule find_function_definitions_distinct)
  then have "sites_of functions func_name = definitions"
    using sym by (rule table_sites)
  then have sites: "definitions = concat (map (file_sites u fs func_name) files)"
    unfolding table find_function_definitions_sites by simp
  have known: "func_name \<in> set (map fst functions)"
    using sym by force
  have "counters = fst (fst (count_references u fs files (map fst functions) v'))"
    by (simp add: second_pass)
  then have "counter_of counters func_name = (\<Sum>f\<leftarrow>files. file_tokens u fs func_name f)"
    using known by (simp only: count_references_counter if_True)
  then have "int (length definitions) \<le> counter_of counters func_name"
    unfolding sites using file_sites_le_tokens [OF classes] by simp
  then show ?thesis
    using FUNC_PATTERN_listed [OF classes] by blast
qed

theorem occurrences_cover_definitions_witness:
  "separate_classes latin1
   \<and> find_function_definitions latin1 naming_fs [[lit ''n.go'']] False = (naming_table, [])
   \<and> (233 # lit ''lan'', [(lit ''n.go'', 10)]) \<in> set naming_table
   \<and> counter_of naming_counters (233 # lit ''lan'') = 1
   \<and> int (length [(lit ''n.go'', 10 :: nat)]) \<le> counter_of naming_counters (233 # lit ''lan'')
   \<and> FUNC_PATTERN latin1 (lit ''func '' @ [233] @ lit ''lan() {}'') = Some (233 # lit ''lan'')
   \<and> 233 # lit ''lan'' \<in> set (WORD_BOUNDARY latin1 (lit ''func '' @ [233] @ lit ''lan() {}''))"
proof -
  let ?scan = "count_references latin1 naming_fs [[lit ''n.go'']] (map fst naming_table) False"
  have classes: "separate_classes latin1"
    by (auto simp: separate_classes_def is_space_def is_word_def latin1_def)
  have first_pass: "find_function_definitions latin1 naming_fs [[lit ''n.go'']] False
      = (naming_table, [])"
    by code_simp
  have second_pass: "?scan = ((naming_counters, snd (fst ?scan)), snd ?scan)"
    by (simp add: naming_counters_def)
  have sym: "(233 # lit ''lan'', [(lit ''n.go'', 10)]) \<in> set naming_table"
    by code_simp
  have count: "counter_of naming_counters (233 # lit ''lan'') = 1"
    by code_simp
  have line: "FUNC_PATTERN latin1 (lit ''func '' @ [233] @ lit ''lan() {}'')
      = Some (233 # lit ''lan'')"
    by code_simp
  show ?thesis
    using occurrences_cover_definitions [OF classes first_pass second_pass sym]
      classes first_pass sym count line
    by blast
qed

text \<open>
  Claim C2, as it is stated: a run that finds one file, which declares no function, writes
  no report; it ends with the second error of \<^verbatim>\<open>process\<close>.
\<close>

theorem no_functions_counterexample:
  "find_files app_root [[lit ''doc.go'']] = [[lit ''doc.go'']]
   \<and> process latin1 default_args app_root [[lit ''doc.go'']] package_only_fs
       = Inr ([], [lit ''[ERROR] No functions found''])"
  using package_only_files package_only_run by (rule conjI)

text \<open>
  Claim C2, amended. A run ends in one of three ways, by what the walk returns, that is
  by the files that match and that no exclusion removes. When the walk returns no file,
  because none matches or because every match is excluded, the run writes the error for
  that to the error stream and nothing to the output. When the walk returns files and no
  function definition is found in them, the run writes the error for that to the error
  stream and nothing to the output. When the walk returns files and a function
  definition is found in them, the run writes a report to the output, from the first
  line of the banner on.
\<close>

theorem report_or_error:
  assumes walk: "find_files cwd found = files"
    and first_pass: "find_function_definitions u fs files (verbose a) = (functions, err2)"
    and second_pass: "count_references u fs files (map fst functions) (verbose a)
                        = ((counters, references), err3)"
  shows "(files = [] \<longrightarrow>
            process u a cwd found fs
              = Inr ([], startup_log a 0 @ [lit ''[ERROR] No Go files found in current directory'']))
       \<and> (files \<noteq> [] \<and> functions = [] \<longrightarrow>
            process u a cwd found fs
              = Inr ([], startup_log a (length files) @ err2 @ [lit ''[ERROR] No functions found'']))
       \<and> (files \<noteq> [] \<and> functions \<noteq> [] \<longrightarrow>
            (\<exists>dead_candidates low_usage.
               classification u a functions counters = Inr (dead_candidates, low_usage)
               \<and> process u a cwd found fs
                   = Inr (report a (length files) (length functions) references
                            dead_candidates low_usage,
                          startup_log a (length files) @ err2 @ err3)
               \<and> report a (length files) (length functions) references
                    dead_candidates low_usage \<noteq> []))"
proof (intro conjI impI)
  assume "files = []"
  with walk show "process u a cwd found fs
      = Inr ([], startup_log a 0 @ [lit ''[ERROR] No Go files found in current directory''])"
    by (simp add: process_no_files)
next
  assume "files \<noteq> [] \<and> functions = []"
  with walk first_pass show "process u a cwd found fs
      = Inr ([], startup_log a (length files) @ err2 @ [lit ''[ERROR] No functions found''])"
    by (simp add: process_no_functions)
next
  assume found: "files \<noteq> [] \<and> functions \<noteq> []"
  let ?dead = "map (dead_of counters) (filter (dead_test u a counters) (sorted_items functions))"
  let ?low = "map (low_of counters) (filter (low_test u a counters) (sorted_items functions))"
  have run: "classification u a functions counters = Inr (?dead, ?low)"
    using first_pass by (rule extracted_classification)
  have "process u a cwd found fs
      = Inr (report a (length files) (length functions) references ?dead ?low,
             startup_log a (length files) @ err2 @ err3)"
    using walk _ first_pass _ second_pass run by (rule process_report) (simp_all add: found)
  with run show "\<exists>dead_candidates low_usage.
       classification u a functions counters = Inr (dead_candidates, low_usage)
       \<and> process u a cwd found fs
           = Inr (report a (length files) (length functions) references
                    dead_candidates low_usage,
                  startup_log a (length files) @ err2 @ err3)
       \<and> report a (length files) (length functions) references
            dead_candidates low_usage \<noteq> []"
    using report_not_empty by blast
qed


theorem report_or_error_witness:
  "find_files app_root [] = []
   \<and> process latin1 default_args app_root [] no_file
       = Inr ([], [lit ''[ERROR] No Go files found in current directory''])
   \<and> find_files app_root [[lit ''vendor'', lit ''x.go'']] = []
   \<and> process latin1 default_args app_root [[lit ''vendor'', lit ''x.go'']] no_file
       = Inr ([], [lit ''[ERROR] No Go files found in current directory''])
   \<and> find_files app_root [[lit ''doc.go'']] = [[lit ''doc.go'']]
   \<and> find_function_definitions latin1 package_only_fs [[lit ''doc.go'']] False = ([], [])
   \<and> process latin1 default_args app_root [[lit ''doc.go'']] package_only_fs
       = Inr ([], [lit ''[ERROR] No functions found''])
   \<and> find_files app_root [[lit ''a.go'']] = [[lit ''a.go'']]
   \<and> find_function_definitions latin1 usage_fs [[lit ''a.go'']] False = (usage_table, [])
   \<and> usage_table \<noteq> []
   \<and> (\<exists>dead_candidates low_usage err.
         classification latin1 default_args usage_table usage_counters
           = Inr (dead_candidates, low_usage)
         \<and> process latin1 default_args app_root [[lit ''a.go'']] usage_fs
             = Inr (report default_args 1 (length usage_table)
                      (snd (fst (count_references latin1 usage_fs [[lit ''a.go'']]
                                   (map fst usage_table) False)))
                      dead_candidates low_usage, err)
         \<and> report default_args 1 (length usage_table)
              (snd (fst (count_references latin1 usage_fs [[lit ''a.go'']]
                           (map fst usage_table) False)))
              dead_candidates low_usage \<noteq> [])"
proof -
  have quiet: "verbose default_args = False"
    by (simp add: default_args_def)
  have second_pass: "count_references latin1 fs files names (verbose default_args)
      = ((fst (fst (count_references latin1 fs files names False)),
          snd (fst (count_references latin1 fs files names False))),
         snd (count_references latin1 fs files names False))" for fs files names
    by (simp add: quiet)
  have walk0: "find_files app_root [] = []"
    by code_simp
  have walk0': "find_files app_root [[lit ''vendor'', lit ''x.go'']] = []"
    by code_simp
  have first0: "find_function_definitions latin1 no_file [] (verbose default_args) = ([], [])"
    unfolding quiet by code_simp
  have run0: "process latin1 default_args app_root [] no_file
      = Inr ([], [lit ''[ERROR] No Go files found in current directory''])"
    using report_or_error [OF walk0 first0 second_pass]
    by (simp add: quiet_startup default_quiet)
  have run0': "process latin1 default_args app_root [[lit ''vendor'', lit ''x.go'']] no_file
      = Inr ([], [lit ''[ERROR] No Go files found in current directory''])"
    using report_or_error [OF walk0' first0 second_pass]
    by (simp add: quiet_startup default_quiet)
  have first1: "find_function_definitions latin1 package_only_fs [[lit ''doc.go'']]
      (verbose default_args) = ([], [])"
    unfolding quiet by code_simp
  have run1: "process latin1 default_args app_root [[lit ''doc.go'']] package_only_fs
      = Inr ([], [lit ''[ERROR] No functions found''])"
    using report_or_error [OF package_only_files first1 second_pass]
    by (simp add: quiet_startup default_quiet)
  have first2: "find_function_definitions latin1 usage_fs [[lit ''a.go'']]
      (verbose default_args) = (usage_table, [])"
    unfolding quiet by (rule usage_first_pass)
  have table: "usage_table \<noteq> []"
    by (simp add: usage_table_value)
  have run2: "\<exists>dead_candidates low_usage err.
         classification latin1 default_args usage_table usage_counters
           = Inr (dead_candidates, low_usage)
         \<and> process latin1 default_args app_root [[lit ''a.go'']] usage_fs
             = Inr (report default_args 1 (length usage_table)
                      (snd (fst (count_references latin1 usage_fs [[lit ''a.go'']]
                                   (map fst usage_table) False)))
                      dead_candidates low_usage, err)
         \<and> report default_args 1 (length usage_table)
              (snd (fst (count_references latin1 usage_fs [[lit ''a.go'']]
                           (map fst usage_table) False)))
              dead_candidates low_usage \<noteq> []"
    using report_or_error [OF usage_files first2 second_pass] table
    unfolding usage_counters_def by auto
  from first1 first2
  have "find_function_definitions latin1 package_only_fs [[lit ''doc.go'']] False = ([], [])"
    and "find_function_definitions latin1 usage_fs [[lit ''a.go'']] False = (usage_table, [])"
    unfolding quiet by simp_all
  with walk0 run0 walk0' run0' package_only_files run1 usage_files table run2 show ?thesis
    by blast
qed










end
